theory Spec2Isabelle
  imports Main "HOL-Library.Word"
begin

section \<open>Python values\<close>

text \<open>
  The model follows \<^verbatim>\<open>assistant_core.py\<close>: the tool loader
  (\<^verbatim>\<open>validate_tool_module\<close>, \<^verbatim>\<open>load_tools_from_directory\<close>,
  \<^verbatim>\<open>reload_tools\<close>) and the loop of
  \<^verbatim>\<open>process_command_with_llm_and_tools\<close>.

  A Python \<^verbatim>\<open>str\<close> is a \<^typ>\<open>string\<close> holding its UTF-8 bytes, so the empty
  \<^verbatim>\<open>str\<close> is the empty list and the Korean literals of the source are written
  byte by byte. An exception is an instance of \<^verbatim>\<open>Exception\<close>, known by the text
  \<^verbatim>\<open>str(e)\<close> gives; what \<^verbatim>\<open>except Exception\<close> does not catch
  (\<^verbatim>\<open>KeyboardInterrupt\<close>, \<^verbatim>\<open>SystemExit\<close>) is outside the model.
\<close>

datatype exn = Exception (str_of: string)

text \<open>
  What \<^verbatim>\<open>json.loads\<close> returns. A float is kept as its IEEE 754 bits; an object is
  the list of its items, keys distinct.
\<close>

datatype jvalue =
    JNull
  | JBool bool
  | JInt int
  | JFloat "64 word"
  | JStr string
  | JArr "jvalue list"
  | JObj "(string \<times> jvalue) list"

text \<open>The truth value Python gives a value in \<^verbatim>\<open>not x\<close> and \<^verbatim>\<open>x or y\<close>:
  false for \<^verbatim>\<open>None\<close>, \<^verbatim>\<open>False\<close>, zero (both float zeros) and the empty
  string, list and dict.\<close>

fun py_bool :: "jvalue \<Rightarrow> bool" where
  "py_bool JNull = False"
| "py_bool (JBool b) = b"
| "py_bool (JInt n) = (n \<noteq> 0)"
| "py_bool (JFloat w) = (take_bit 63 w \<noteq> 0)"
| "py_bool (JStr s) = (s \<noteq> [])"
| "py_bool (JArr xs) = (xs \<noteq> [])"
| "py_bool (JObj kvs) = (kvs \<noteq> [])"

definition py_or :: "jvalue \<Rightarrow> jvalue \<Rightarrow> jvalue" where
  "py_or a b = (if py_bool a then a else b)"

text \<open>\<^verbatim>\<open>d.get(k, default)\<close> on a dict given by its items.\<close>

definition dict_get :: "(string \<times> 'v) list \<Rightarrow> string \<Rightarrow> 'v \<Rightarrow> 'v" where
  "dict_get d k dflt = (case map_of d k of None \<Rightarrow> dflt | Some v \<Rightarrow> v)"

text \<open>
  What a tool callable returns is an arbitrary Python object. The orchestrator hands it on
  unchanged and observes it in three ways only: its truth value and \<^verbatim>\<open>len\<close>
  (line 264) and \<^verbatim>\<open>str\<close> (lines 288 and 295). \<^verbatim>\<open>None\<close> and
  \<^verbatim>\<open>bytes\<close>, which the speech tool returns, are concrete; any other object is given
  by what these three observations yield, each of which may raise.
\<close>

datatype pyval =
    PNone
  | PBytes "char list"
  | PObj (obj_bool: "exn + bool") (obj_len: "exn + nat") (obj_str: "exn + string")

text \<open>The \<^verbatim>\<open>repr\<close> of a bytes object, which is also its \<^verbatim>\<open>str\<close>.\<close>

definition hex_digit :: "nat \<Rightarrow> char" where
  "hex_digit n = ''0123456789abcdef'' ! (n mod 16)"

definition bytes_quote :: "char list \<Rightarrow> char" where
  "bytes_quote bs =
     (if CHR 0x27 \<in> set bs \<and> CHR 0x22 \<notin> set bs then CHR 0x22 else CHR 0x27)"

definition escape_byte :: "char \<Rightarrow> char \<Rightarrow> string" where
  "escape_byte quote c =
     (if c = quote \<or> c = CHR 0x5C then [CHR 0x5C, c]
      else if c = CHR 0x09 then [CHR 0x5C, CHR ''t'']
      else if c = CHR 0x0A then [CHR 0x5C, CHR ''n'']
      else if c = CHR 0x0D then [CHR 0x5C, CHR ''r'']
      else if (of_char c :: nat) < 0x20 \<or> 0x7F \<le> (of_char c :: nat)
        then [CHR 0x5C, CHR ''x'', hex_digit (of_char c div 16), hex_digit (of_char c)]
      else [c])"

definition bytes_repr :: "char list \<Rightarrow> string" where
  "bytes_repr bs =
     (let quote = bytes_quote bs
      in CHR ''b'' # quote # concat (map (escape_byte quote) bs) @ [quote])"

fun py_str :: "pyval \<Rightarrow> exn + string" where
  "py_str PNone = Inr ''None''"
| "py_str (PBytes bs) = Inr (bytes_repr bs)"
| "py_str (PObj b l s) = s"

text \<open>The expression \<^verbatim>\<open>len(audio_content) if audio_content else 0\<close> of line 264.\<close>

fun len_if_true :: "pyval \<Rightarrow> exn + nat" where
  "len_if_true PNone = Inr 0"
| "len_if_true (PBytes bs) = Inr (length bs)"
| "len_if_true (PObj b l s) =
     (case b of Inl e \<Rightarrow> Inl e | Inr True \<Rightarrow> l | Inr False \<Rightarrow> Inr 0)"

section \<open>Tool modules and the registry\<close>

text \<open>
  A tool callable, called with keyword arguments, returns an object or raises. Tool code
  is trusted code of the same process, so it can also call \<^verbatim>\<open>reload_tools()\<close>;
  \<open>calls_reload\<close> says whether it does. \<open>func_str\<close> is how the interpreter names
  the callable in its own error messages (module, qualified name and \<^verbatim>\<open>()\<close>).
\<close>

datatype callable =
  Callable (func_str: string) (body: "(string \<times> jvalue) list \<Rightarrow> exn + pyval")
    (calls_reload: bool)

text \<open>An attribute of a loaded module, as \<^verbatim>\<open>hasattr\<close> and \<^verbatim>\<open>isinstance\<close>
  see it: absent, of another type, or of the type asked for.\<close>

datatype 'a attr = NoAttr | OtherType | OfType 'a

record tool_module =
  TOOL_SCHEMAS :: "jvalue list attr"
  TOOL_MAP :: "(string \<rightharpoonup> callable) attr"

text \<open>
  Lines 48 to 53. The source defines this validator itself whenever
  \<^verbatim>\<open>tools/tool_interface.py\<close> cannot be imported; that file is not among the
  sources, so this is the validator in force.
\<close>

definition validate_tool_module :: "tool_module \<Rightarrow> bool" where
  "validate_tool_module m =
     (let has_schemas = (case TOOL_SCHEMAS m of OfType ss \<Rightarrow> True | _ \<Rightarrow> False);
          has_tool_map = (case TOOL_MAP m of OfType tm \<Rightarrow> True | _ \<Rightarrow> False)
      in has_schemas \<and> has_tool_map)"

text \<open>
  One entry of \<^verbatim>\<open>os.listdir(directory)\<close>: its name, whether it is a directory, and what
  loading its \<^verbatim>\<open>core.py\<close> gives: no such file, no import spec or loader, an
  exception while the module runs, or the module.
\<close>

datatype core_py = NoCore | NoSpec | ExecRaises exn | Loaded tool_module

record dir_entry =
  tool_name :: string
  isdir :: bool
  core :: core_py

type_synonym registry = "jvalue list \<times> (string \<rightharpoonup> callable)"

definition exclude_dirs :: "string set" where
  "exclude_dirs = {''__pycache__'', ''tool_template''}"

text \<open>
  The body of the loop of lines 97 to 124 on the accumulators
  \<open>(all_schemas, all_tool_maps)\<close>: \<^verbatim>\<open>list.extend\<close> appends,
  \<^verbatim>\<open>dict.update\<close> overrides. After a successful validation both attributes are
  present with their types, so the other cases of the two \<^verbatim>\<open>hasattr\<close> tests are
  never reached.
\<close>

fun load_entry :: "registry \<Rightarrow> dir_entry \<Rightarrow> registry" where
  "load_entry (all_schemas, all_tool_maps) e =
     (if isdir e \<and> tool_name e \<notin> exclude_dirs then
        (case core e of
           Loaded m \<Rightarrow>
             if validate_tool_module m then
               ((case TOOL_SCHEMAS m of OfType ss \<Rightarrow> all_schemas @ ss | _ \<Rightarrow> all_schemas),
                (case TOOL_MAP m of OfType tm \<Rightarrow> all_tool_maps ++ tm | _ \<Rightarrow> all_tool_maps))
             else (all_schemas, all_tool_maps)
         | _ \<Rightarrow> (all_schemas, all_tool_maps))
      else (all_schemas, all_tool_maps))"

fun load_loop :: "registry \<Rightarrow> dir_entry list \<Rightarrow> registry" where
  "load_loop acc [] = acc"
| "load_loop acc (e # es) = load_loop (load_entry acc e) es"

definition load_tools_from_directory :: "dir_entry list \<Rightarrow> registry" where
  "load_tools_from_directory directory = load_loop ([], Map.empty) directory"

text \<open>The name of a schema, as \<^verbatim>\<open>schema["function"]["name"]\<close> reads it
  (\<^verbatim>\<open>tools/planning_tool/core.py\<close>, line 568).\<close>

definition schema_name :: "jvalue \<Rightarrow> string option" where
  "schema_name s =
     (case s of
        JObj kvs \<Rightarrow>
          (case map_of kvs ''function'' of
             Some (JObj f) \<Rightarrow> (case map_of f ''name'' of Some (JStr n) \<Rightarrow> Some n | _ \<Rightarrow> None)
           | _ \<Rightarrow> None)
      | _ \<Rightarrow> None)"

definition schema_names :: "jvalue list \<Rightarrow> string set" where
  "schema_names ss = set (List.map_filter schema_name ss)"

section \<open>The orchestration loop\<close>

text \<open>
  A tool call of the model's turn; \<open>arguments\<close> is what
  \<^verbatim>\<open>json.loads(tool_call.function.arguments)\<close> gives: the value, or the exception
  it raises on a malformed string.
\<close>

record tool_call =
  call_id :: string
  function_name :: string
  arguments :: "exn + jvalue"

record response_message =
  content :: "string option"
  tool_calls :: "tool_call list option"

text \<open>An element of \<^verbatim>\<open>messages\<close>: a dict from strings to strings, or the response
  object of the model appended at line 243.\<close>

datatype message = Dict "(string \<times> string) list" | Response response_message

text \<open>
  What a run does to the outside, in order: each call of the model provider with the
  message list and the schemas passed, and each call
  \<^verbatim>\<open>function_to_call(**function_args)\<close> with the name, what the lookup in
  \<^verbatim>\<open>loaded_tool_functions\<close> gave and the arguments.
\<close>

datatype event =
    ModelCalled "message list" "jvalue list"
  | ToolCalled string "callable option" jvalue

text \<open>
  The two module globals, the tools directory as \<^verbatim>\<open>reload_tools\<close> would find it,
  the local list \<^verbatim>\<open>messages\<close> of the run, and the record of events.
\<close>

record state =
  tools_dir :: "dir_entry list"
  loaded_tools_schemas :: "jvalue list"
  loaded_tool_functions :: "string \<rightharpoonup> callable"
  messages :: "message list"
  events :: "event list"

definition reload_tools :: "state \<Rightarrow> registry \<times> state" where
  "reload_tools st =
     (let (schemas, functions) = load_tools_from_directory (tools_dir st)
      in ((schemas, functions),
          st\<lparr>loaded_tools_schemas := schemas, loaded_tool_functions := functions\<rparr>))"

text \<open>The dict a run returns: its values are JSON-like values or objects of a tool.\<close>

datatype rvalue = Json jvalue | Obj pyval

type_synonym result = "(string \<times> rvalue) list"

definition msg_no_command :: string where
  "msg_no_command =
     [CHR 0xEB, CHR 0xAA, CHR 0x85, CHR 0xEB, CHR 0xA0, CHR 0xB9, CHR 0xEC, CHR 0x9D, CHR 0x84,
      CHR 0x20, CHR 0xEB, CHR 0xB0, CHR 0x9B, CHR 0xEC, CHR 0xA7, CHR 0x80, CHR 0x20, CHR 0xEB,
      CHR 0xAA, CHR 0xBB, CHR 0xED, CHR 0x96, CHR 0x88, CHR 0xEC, CHR 0x8A, CHR 0xB5, CHR 0xEB,
      CHR 0x8B, CHR 0x88, CHR 0xEB, CHR 0x8B, CHR 0xA4, CHR 0x2E]"

definition msg_tool_error :: string where
  "msg_tool_error =
     [CHR 0xEC, CHR 0x98, CHR 0xA4, CHR 0xEB, CHR 0xA5, CHR 0x98, CHR 0x20, CHR 0xEB, CHR 0xB0,
      CHR 0x9C, CHR 0xEC, CHR 0x83, CHR 0x9D, CHR 0x3A, CHR 0x20]"

definition msg_llm_error :: string where
  "msg_llm_error =
     [CHR 0xEC, CHR 0xB2, CHR 0x98, CHR 0xEB, CHR 0xA6, CHR 0xAC, CHR 0x20, CHR 0xEC, CHR 0xA4,
      CHR 0x91, CHR 0x20, CHR 0xEC, CHR 0x98, CHR 0xA4, CHR 0xEB, CHR 0xA5, CHR 0x98, CHR 0xEA,
      CHR 0xB0, CHR 0x80, CHR 0x20, CHR 0xEB, CHR 0xB0, CHR 0x9C, CHR 0xEC, CHR 0x83, CHR 0x9D,
      CHR 0xED, CHR 0x96, CHR 0x88, CHR 0xEC, CHR 0x8A, CHR 0xB5, CHR 0xEB, CHR 0x8B, CHR 0x88,
      CHR 0xEB, CHR 0x8B, CHR 0xA4, CHR 0x3A, CHR 0x20]"

text \<open>The dict literals of lines 267, 277 and 310, and of lines 144 and 318.\<close>

definition audio_response :: "jvalue \<Rightarrow> jvalue \<Rightarrow> pyval \<Rightarrow> result" where
  "audio_response voice_text detailed_text audio_content =
     [(''status'', Json (JStr ''success'')),
      (''response_type'', Json (JStr ''audio_response'')),
      (''voice_text'', Json voice_text),
      (''detailed_text'', Json detailed_text),
      (''audio_content'', Obj audio_content)]"

definition text_fallback :: "jvalue \<Rightarrow> result" where
  "text_fallback text_content =
     [(''status'', Json (JStr ''success'')),
      (''response_type'', Json (JStr ''text_fallback'')),
      (''text_content'', Json text_content)]"

definition error_response :: "string \<Rightarrow> result" where
  "error_response response = [(''status'', Json (JStr ''error'')), (''response'', Json (JStr response))]"

text \<open>
  The call \<^verbatim>\<open>function_to_call(**function_args)\<close>. It raises a
  \<^verbatim>\<open>TypeError\<close> when the arguments are not a dict or when the name was not in the
  function map (\<^verbatim>\<open>function_to_call\<close> is \<^verbatim>\<open>None\<close>); the arguments are
  checked first. Otherwise the callable runs, and reloads the registry if it is one that
  does. The texts of the two errors are the interpreter's, as CPython 3.9 and later word
  them: the first names the callable and the type of the arguments, the second is
  \<^verbatim>\<open>'NoneType' object is not callable\<close>.
\<close>

definition quoted :: "string \<Rightarrow> string" where
  "quoted s = CHR 0x27 # s @ [CHR 0x27]"

fun type_name :: "jvalue \<Rightarrow> string" where
  "type_name JNull = ''NoneType''"
| "type_name (JBool b) = ''bool''"
| "type_name (JInt n) = ''int''"
| "type_name (JFloat w) = ''float''"
| "type_name (JStr s) = ''str''"
| "type_name (JArr xs) = ''list''"
| "type_name (JObj kvs) = ''dict''"

definition err_not_mapping :: "callable option \<Rightarrow> jvalue \<Rightarrow> exn" where
  "err_not_mapping function_to_call function_args =
     Exception ((case function_to_call of None \<Rightarrow> ''None'' | Some f \<Rightarrow> func_str f)
                @ '' argument after ** must be a mapping, not '' @ type_name function_args)"

definition err_not_callable :: exn where
  "err_not_callable = Exception (quoted ''NoneType'' @ '' object is not callable'')"

definition invoke :: "string \<Rightarrow> callable option \<Rightarrow> jvalue \<Rightarrow> state \<Rightarrow> (exn + pyval) \<times> state" where
  "invoke name function_to_call function_args st =
     (let st1 = st\<lparr>events := events st @ [ToolCalled name function_to_call function_args]\<rparr>
      in case function_args of
           JObj kwargs \<Rightarrow>
             (case function_to_call of
                None \<Rightarrow> (Inl err_not_callable, st1)
              | Some f \<Rightarrow> (body f kwargs, if calls_reload f then snd (reload_tools st1) else st1))
         | _ \<Rightarrow> (Inl (err_not_mapping function_to_call function_args), st1))"

text \<open>What one pass through the body of \<^verbatim>\<open>for tool_call in tool_calls\<close> ends in:
  an exception that reaches the handler of line 316, a \<^verbatim>\<open>return\<close>, or the next
  pass.\<close>

datatype flow = Raise exn | Return result | Next

text \<open>
  Lines 251 to 281. \<^verbatim>\<open>function_args.get\<close> raises an
  \<^verbatim>\<open>AttributeError\<close> outside the inner \<^verbatim>\<open>try\<close> when the arguments are not
  a dict; its text names the type, as in \<^verbatim>\<open>'list' object has no attribute 'get'\<close>.
\<close>

definition err_no_get :: "jvalue \<Rightarrow> exn" where
  "err_no_get function_args =
     Exception (quoted (type_name function_args) @ '' object has no attribute '' @ quoted ''get'')"

definition speak_text_branch :: "callable option \<Rightarrow> jvalue \<Rightarrow> state \<Rightarrow> flow \<times> state" where
  "speak_text_branch function_to_call function_args st =
     (case function_args of
        JObj kwargs \<Rightarrow>
          (let voice_text = dict_get kwargs ''text'' (JStr '''');
               detailed_text0 = dict_get kwargs ''detailed_text'' (JStr '''');
               detailed_text = (if \<not> py_bool detailed_text0 then voice_text else detailed_text0);
               fallback = Return (text_fallback (py_or detailed_text voice_text))
           in case invoke ''speak_text'' function_to_call function_args st of
                (Inl e, st') \<Rightarrow> (fallback, st')
              | (Inr audio_content, st') \<Rightarrow>
                  (case len_if_true audio_content of
                     Inl e \<Rightarrow> (fallback, st')
                   | Inr n \<Rightarrow> (Return (audio_response voice_text detailed_text audio_content), st')))
      | _ \<Rightarrow> (Raise (err_no_get function_args), st))"

text \<open>Lines 284 to 305: the result or the error goes into \<^verbatim>\<open>messages\<close> as a
  \<^verbatim>\<open>tool\<close> message.\<close>

definition tool_message :: "string \<Rightarrow> string \<Rightarrow> string \<Rightarrow> message" where
  "tool_message tool_call_id name content_str =
     Dict [(''tool_call_id'', tool_call_id), (''role'', ''tool''),
           (''name'', name), (''content'', content_str)]"

definition append_message :: "message \<Rightarrow> state \<Rightarrow> state" where
  "append_message m st = st\<lparr>messages := messages st @ [m]\<rparr>"

definition other_tool_branch ::
  "tool_call \<Rightarrow> callable option \<Rightarrow> jvalue \<Rightarrow> state \<Rightarrow> flow \<times> state" where
  "other_tool_branch tc function_to_call function_args st =
     (case invoke (function_name tc) function_to_call function_args st of
        (Inl e, st') \<Rightarrow>
          (Next, append_message
                   (tool_message (call_id tc) (function_name tc) (msg_tool_error @ str_of e)) st')
      | (Inr function_response, st') \<Rightarrow>
          (case py_str function_response of
             Inl e \<Rightarrow>
               (Next, append_message
                        (tool_message (call_id tc) (function_name tc) (msg_tool_error @ str_of e)) st')
           | Inr s \<Rightarrow>
               (Next, append_message (tool_message (call_id tc) (function_name tc) s) st')))"

text \<open>Lines 246 to 305, one tool call: the lookup, \<^verbatim>\<open>json.loads\<close>, and the two
  branches.\<close>

definition for_body :: "state \<Rightarrow> tool_call \<Rightarrow> flow \<times> state" where
  "for_body st tc =
     (let function_to_call = loaded_tool_functions st (function_name tc)
      in case arguments tc of
           Inl e \<Rightarrow> (Raise e, st)
         | Inr function_args \<Rightarrow>
             if function_name tc = ''speak_text''
             then speak_text_branch function_to_call function_args st
             else other_tool_branch tc function_to_call function_args st)"

fun for_tool_calls :: "state \<Rightarrow> tool_call list \<Rightarrow> flow \<times> state" where
  "for_tool_calls st [] = (Next, st)"
| "for_tool_calls st (tc # tcs) =
     (case for_body st tc of
        (Next, st') \<Rightarrow> for_tool_calls st' tcs
      | (r, st') \<Rightarrow> (r, st'))"

text \<open>
  The model provider: given the message list and the schemas, the message
  \<^verbatim>\<open>response.choices[0].message\<close>, or the exception that the call or that access
  raises. Within one run the message list grows with every call, so a function of the
  arguments describes any sequence of answers.
\<close>

type_synonym provider = "message list \<Rightarrow> jvalue list \<Rightarrow> exn + response_message"

text \<open>
  Lines 230 to 321. The source loops without a bound; the model counts the model calls
  it may still make and gives \<open>None\<close> when they are used up before a
  \<^verbatim>\<open>return\<close>. \<open>model_called\<close> records the call of line 232 with the two
  arguments read at that moment, the local \<^verbatim>\<open>messages\<close> and the global
  \<^verbatim>\<open>loaded_tools_schemas\<close>.
\<close>

definition model_called :: "state \<Rightarrow> state" where
  "model_called st =
     st\<lparr>events := events st @ [ModelCalled (messages st) (loaded_tools_schemas st)]\<rparr>"

fun while_loop :: "provider \<Rightarrow> nat \<Rightarrow> state \<Rightarrow> (result \<times> state) option" where
  "while_loop llm 0 st = None"
| "while_loop llm (Suc fuel) st =
     (let st1 = model_called st
      in case llm (messages st) (loaded_tools_schemas st) of
           Inl e \<Rightarrow> Some (error_response (msg_llm_error @ str_of e), st1)
         | Inr response_message \<Rightarrow>
             (case tool_calls response_message of
                Some (tc # tcs) \<Rightarrow>
                  (case for_tool_calls (append_message (Response response_message) st1) (tc # tcs) of
                     (Raise e, st2) \<Rightarrow> Some (error_response (msg_llm_error @ str_of e), st2)
                   | (Return r, st2) \<Rightarrow> Some (r, st2)
                   | (Next, st2) \<Rightarrow> while_loop llm fuel st2)
              | _ \<Rightarrow>
                  Some (text_fallback (case content response_message of
                                         None \<Rightarrow> JNull | Some s \<Rightarrow> JStr s), st1)))"

text \<open>
  Lines 222 to 227. The comprehension reads \<^verbatim>\<open>msg['role']\<close> of every prior message
  and raises a \<^verbatim>\<open>KeyError\<close>, whose text is the quoted key, at the first one
  without that key; this happens before the \<^verbatim>\<open>try\<close>, so the exception leaves
  the function.
\<close>

fun without_system :: "(string \<times> string) list list \<Rightarrow> exn + message list" where
  "without_system [] = Inr []"
| "without_system (msg # rest) =
     (case map_of msg ''role'' of
        None \<Rightarrow> Inl (Exception (quoted ''role''))
      | Some r \<Rightarrow>
          (case without_system rest of
             Inl e \<Rightarrow> Inl e
           | Inr ms \<Rightarrow> Inr (if r \<noteq> ''system'' then Dict msg # ms else ms)))"

definition seed_messages ::
  "string \<Rightarrow> string \<Rightarrow> (string \<times> string) list list \<Rightarrow> exn + message list" where
  "seed_messages system_prompt command_text conversation_history =
     (case without_system conversation_history of
        Inl e \<Rightarrow> Inl e
      | Inr prior \<Rightarrow>
          Inr ([Dict [(''role'', ''system''), (''content'', system_prompt)]] @ prior
               @ [Dict [(''role'', ''user''), (''content'', command_text)]]))"

text \<open>
  The function of line 132. The system prompt is a literal of seventy lines in the source
  (lines 147 to 220); nothing below depends on its text, so it is an argument here. The
  result is \<open>None\<close> when the loop does not return within \<open>fuel\<close> model calls,
  \<open>Inl\<close> for the exception that leaves the function, \<open>Inr\<close> for the dict returned,
  with the state the run leaves.
\<close>

definition process_command_with_llm_and_tools ::
  "provider \<Rightarrow> string \<Rightarrow> nat \<Rightarrow> string \<Rightarrow> (string \<times> string) list list \<Rightarrow> state
     \<Rightarrow> (exn + result \<times> state) option" where
  "process_command_with_llm_and_tools llm system_prompt fuel command_text conversation_history st =
     (if command_text = [] then Some (Inr (error_response msg_no_command, st))
      else case seed_messages system_prompt command_text conversation_history of
             Inl e \<Rightarrow> Some (Inl e)
           | Inr seeded \<Rightarrow> map_option Inr (while_loop llm fuel (st\<lparr>messages := seeded\<rparr>)))"

section \<open>Notions used in the statements\<close>

text \<open>An entry whose module has \<open>n\<close> among the keys of its \<^verbatim>\<open>TOOL_MAP\<close>.\<close>

definition declares :: "dir_entry \<Rightarrow> string \<Rightarrow> bool" where
  "declares e n =
     (case core e of
        Loaded m \<Rightarrow> (case TOOL_MAP m of OfType tm \<Rightarrow> n \<in> dom tm | _ \<Rightarrow> False)
      | _ \<Rightarrow> False)"

text \<open>
  The names of the tools called, in order, and the schema lists passed to the model, in
  order, as the record of events has them.
\<close>

fun called_names :: "event list \<Rightarrow> string list" where
  "called_names [] = []"
| "called_names (ModelCalled ms tools # evs) = called_names evs"
| "called_names (ToolCalled n f a # evs) = n # called_names evs"

fun schemas_passed :: "event list \<Rightarrow> jvalue list list" where
  "schemas_passed [] = []"
| "schemas_passed (ModelCalled ms tools # evs) = tools # schemas_passed evs"
| "schemas_passed (ToolCalled n f a # evs) = schemas_passed evs"

text \<open>
  An event sees the registry \<open>(S, F)\<close> when it is a model call that was passed
  the schemas \<open>S\<close>, or a tool call whose callable is the one \<open>F\<close> has under
  the name. Two states have the same registry when the two globals agree.
\<close>

fun sees_registry :: "jvalue list \<Rightarrow> (string \<rightharpoonup> callable) \<Rightarrow> event \<Rightarrow> bool" where
  "sees_registry S F (ModelCalled ms tools) = (tools = S)"
| "sees_registry S F (ToolCalled n f a) = (f = F n)"

definition same_registry :: "state \<Rightarrow> state \<Rightarrow> bool" where
  "same_registry st st' =
     (loaded_tools_schemas st' = loaded_tools_schemas st \<and>
      loaded_tool_functions st' = loaded_tool_functions st)"

section \<open>Example inputs\<close>

text \<open>A schema in the format of \<^verbatim>\<open>TOOL_SCHEMAS\<close>, two callables that return
  \<^verbatim>\<open>None\<close> and a bytes object, and a directory entry with a module.\<close>

definition example_schema :: "string \<Rightarrow> string \<Rightarrow> jvalue" where
  "example_schema n d =
     JObj [(''type'', JStr ''function''),
           (''function'', JObj [(''name'', JStr n), (''description'', JStr d)])]"

definition returns_none :: callable where
  "returns_none = Callable ''tools.returns_none()'' (\<lambda>kwargs. Inr PNone) False"

definition returns_bytes :: callable where
  "returns_bytes = Callable ''tools.returns_bytes()'' (\<lambda>kwargs. Inr (PBytes ''RIFF'')) False"

definition example_entry :: "string \<Rightarrow> tool_module \<Rightarrow> dir_entry" where
  "example_entry n m = \<lparr>tool_name = n, isdir = True, core = Loaded m\<rparr>"

text \<open>
  A callable that calls \<^verbatim>\<open>reload_tools()\<close> and one that raises; two states whose
  registry was loaded before the tools directory got its present content, the second
  with a tool that reloads; a provider
  that asks for the given tool calls as long as the message list has at most \<open>n\<close>
  elements and answers in text after that, and one that fails; tool calls.
\<close>

definition reloads :: callable where
  "reloads = Callable ''tools.reloads()'' (\<lambda>kwargs. Inr PNone) True"

definition raises_boom :: callable where
  "raises_boom = Callable ''tools.raises_boom()'' (\<lambda>kwargs. Inl (Exception ''boom'')) False"

definition example_state :: state where
  "example_state =
     \<lparr>tools_dir =
        [example_entry ''lookup_tool''
           \<lparr>TOOL_SCHEMAS = OfType [example_schema ''lookup'' ''new''],
            TOOL_MAP = OfType [''lookup'' \<mapsto> returns_none]\<rparr>],
      loaded_tools_schemas = [example_schema ''speak_text'' ''old''],
      loaded_tool_functions = [''speak_text'' \<mapsto> returns_bytes],
      messages = [Dict [(''role'', ''user''), (''content'', ''hi'')]],
      events = []\<rparr>"

definition stale_state :: state where
  "stale_state =
     example_state
       \<lparr>loaded_tools_schemas := [example_schema ''refresh'' ''old''],
        loaded_tool_functions := [''refresh'' \<mapsto> reloads]\<rparr>"

definition scripted :: "nat \<Rightarrow> tool_call list \<Rightarrow> provider" where
  "scripted n tcs ms tools =
     (if length ms \<le> n then Inr \<lparr>content = None, tool_calls = Some tcs\<rparr>
      else Inr \<lparr>content = Some ''done'', tool_calls = None\<rparr>)"

definition failing_provider :: provider where
  "failing_provider ms tools = Inl (Exception ''timeout'')"

definition speak_call :: tool_call where
  "speak_call =
     \<lparr>call_id = ''call_2'', function_name = ''speak_text'',
      arguments = Inr (JObj [(''text'', JStr ''hi''), (''detailed_text'', JStr ''hello there'')])\<rparr>"

definition speak_with :: "(string \<times> jvalue) list \<Rightarrow> tool_call" where
  "speak_with kwargs =
     \<lparr>call_id = ''call_2'', function_name = ''speak_text'', arguments = Inr (JObj kwargs)\<rparr>"

definition other_call :: "string \<Rightarrow> tool_call" where
  "other_call n = \<lparr>call_id = ''call_1'', function_name = n, arguments = Inr (JObj [])\<rparr>"

section \<open>Properties\<close>

subsection \<open>The guard on an empty command\<close>

text \<open>
  C10. On an empty \<^verbatim>\<open>command_text\<close> the function returns at once the dict with
  \<^verbatim>\<open>status\<close> \<^verbatim>\<open>error\<close>, whatever the provider, the number of model calls
  allowed and the prior history: the state is the one it was called in, so the record of
  events has no model call and no tool call more, and no message list was built. The
  prior history is an argument the function only reads.
\<close>

theorem empty_command_returns_error:
  "process_command_with_llm_and_tools llm system_prompt fuel [] conversation_history st
     = Some (Inr (error_response msg_no_command, st))
   \<and> map_of (error_response msg_no_command) ''status'' = Some (Json (JStr ''error''))"
  by (simp add: process_command_with_llm_and_tools_def error_response_def)

subsection \<open>Validation and the registry\<close>

lemma load_loop_append: "load_loop acc (es1 @ es2) = load_loop (load_loop acc es1) es2"
  by (induction es1 arbitrary: acc) auto

lemma load_entry_rejected:
  "core e = Loaded m \<Longrightarrow> \<not> validate_tool_module m \<Longrightarrow> load_entry acc e = acc"
  by (cases acc) simp

lemma load_entry_accepted:
  "isdir e \<Longrightarrow> tool_name e \<notin> exclude_dirs \<Longrightarrow> core e = Loaded m \<Longrightarrow>
   TOOL_SCHEMAS m = OfType ss \<Longrightarrow> TOOL_MAP m = OfType tm \<Longrightarrow>
   load_entry (S, F) e = (S @ ss, F ++ tm)"
  by (simp add: validate_tool_module_def)

lemma load_entry_schemas_grow: "\<exists>X. fst (load_entry (S, F) e) = S @ X"
  by (auto split: core_py.splits attr.splits)

lemma load_loop_schemas_grow: "\<exists>X. fst (load_loop (S, F) es) = S @ X"
proof (induction es arbitrary: S F)
  case Nil
  then show ?case by simp
next
  case (Cons e es)
  obtain S' F' where step: "load_entry (S, F) e = (S', F')"
    by (cases "load_entry (S, F) e")
  from load_entry_schemas_grow[of S F e] step obtain X where "S' = S @ X"
    by auto
  moreover from Cons.IH[of S' F'] obtain Y where "fst (load_loop (S', F') es) = S' @ Y"
    by auto
  ultimately show ?case using step by simp
qed

lemma load_entry_other_name:
  "\<not> declares e n \<Longrightarrow> snd (load_entry (S, F) e) n = F n"
  by (auto simp: declares_def map_add_def split: core_py.splits attr.splits option.splits)

lemma load_loop_other_name:
  "\<forall>e \<in> set es. \<not> declares e n \<Longrightarrow> snd (load_loop (S, F) es) n = F n"
proof (induction es arbitrary: S F)
  case Nil
  then show ?case by simp
next
  case (Cons e es)
  obtain S' F' where step: "load_entry (S, F) e = (S', F')"
    by (cases "load_entry (S, F) e")
  with load_entry_other_name[of e n S F] Cons.prems have "F' n = F n"
    by simp
  with Cons step show ?case by simp
qed

text \<open>
  C1, as the code has it. The validator of \<^verbatim>\<open>assistant_core.py\<close> accepts a module
  exactly when \<^verbatim>\<open>TOOL_SCHEMAS\<close> is there and is a list and \<^verbatim>\<open>TOOL_MAP\<close> is
  there and is a dict; it does not look at the names. A module it rejects adds nothing to
  the registry: the directory loads as it would without that entry.
\<close>

theorem validation_checks_presence_only:
  "(validate_tool_module m \<longleftrightarrow>
      (\<exists>ss tm. TOOL_SCHEMAS m = OfType ss \<and> TOOL_MAP m = OfType tm)) \<and>
   (core e = Loaded m \<and> \<not> validate_tool_module m \<longrightarrow>
      load_tools_from_directory (es1 @ e # es2) = load_tools_from_directory (es1 @ es2))"
proof -
  have "validate_tool_module m \<longleftrightarrow>
      (\<exists>ss tm. TOOL_SCHEMAS m = OfType ss \<and> TOOL_MAP m = OfType tm)"
    by (auto simp: validate_tool_module_def split: attr.splits)
  moreover have "load_tools_from_directory (es1 @ e # es2) = load_tools_from_directory (es1 @ es2)"
    if "core e = Loaded m" "\<not> validate_tool_module m"
    using that by (simp add: load_tools_from_directory_def load_loop_append load_entry_rejected)
  ultimately show ?thesis by blast
qed

text \<open>The theorem at a module without \<^verbatim>\<open>TOOL_MAP\<close>, listed after a valid one.\<close>

theorem validation_checks_presence_only_witness:
  "\<not> validate_tool_module \<lparr>TOOL_SCHEMAS = OfType [example_schema ''a'' ''x''], TOOL_MAP = NoAttr\<rparr> \<and>
   load_tools_from_directory
     ([example_entry ''good''
         \<lparr>TOOL_SCHEMAS = OfType [example_schema ''b'' ''y''], TOOL_MAP = OfType [''b'' \<mapsto> returns_none]\<rparr>]
      @ example_entry ''bad''
          \<lparr>TOOL_SCHEMAS = OfType [example_schema ''a'' ''x''], TOOL_MAP = NoAttr\<rparr> # [])
   = load_tools_from_directory
     ([example_entry ''good''
         \<lparr>TOOL_SCHEMAS = OfType [example_schema ''b'' ''y''], TOOL_MAP = OfType [''b'' \<mapsto> returns_none]\<rparr>]
      @ [])"
  using validation_checks_presence_only
    [of "\<lparr>TOOL_SCHEMAS = OfType [example_schema ''a'' ''x''], TOOL_MAP = NoAttr\<rparr>"
        "example_entry ''bad'' \<lparr>TOOL_SCHEMAS = OfType [example_schema ''a'' ''x''], TOOL_MAP = NoAttr\<rparr>"
        "[example_entry ''good''
           \<lparr>TOOL_SCHEMAS = OfType [example_schema ''b'' ''y''], TOOL_MAP = OfType [''b'' \<mapsto> returns_none]\<rparr>]"
        "[]"]
  by (simp add: example_entry_def)

text \<open>
  C1 as stated fails: a module whose only schema is named \<open>a\<close> and whose only callable
  is registered as \<open>b\<close> passes validation, and its schema and its callable are in the
  registry.
\<close>

theorem mismatched_names_accepted:
  "schema_names [example_schema ''a'' ''x''] = {''a''} \<and>
   dom [''b'' \<mapsto> returns_none] = {''b''} \<and>
   validate_tool_module
     \<lparr>TOOL_SCHEMAS = OfType [example_schema ''a'' ''x''], TOOL_MAP = OfType [''b'' \<mapsto> returns_none]\<rparr> \<and>
   fst (load_tools_from_directory
     [example_entry ''t''
        \<lparr>TOOL_SCHEMAS = OfType [example_schema ''a'' ''x''], TOOL_MAP = OfType [''b'' \<mapsto> returns_none]\<rparr>])
     = [example_schema ''a'' ''x''] \<and>
   snd (load_tools_from_directory
     [example_entry ''t''
        \<lparr>TOOL_SCHEMAS = OfType [example_schema ''a'' ''x''], TOOL_MAP = OfType [''b'' \<mapsto> returns_none]\<rparr>])
     ''b'' = Some returns_none"
  by (simp add: validate_tool_module_def schema_names_def schema_name_def example_schema_def
      example_entry_def load_tools_from_directory_def exclude_dirs_def List.map_filter_simps)

text \<open>
  C9, as the code has it. Of two accepted modules that both register the name \<open>n\<close>, the
  schema lists of both are in the registry, in the order of the listing, and \<open>n\<close> is
  bound to what the later module registers, as long as no entry listed after it has the
  name: \<^verbatim>\<open>extend\<close> keeps every schema and \<^verbatim>\<open>update\<close> overrides. Which
  callable wins is fixed by the order of the listing alone.
\<close>

theorem duplicate_name_last_wins:
  assumes "isdir e1" "tool_name e1 \<notin> exclude_dirs" "core e1 = Loaded m1"
      "TOOL_SCHEMAS m1 = OfType ss1" "TOOL_MAP m1 = OfType tm1"
    and "isdir e2" "tool_name e2 \<notin> exclude_dirs" "core e2 = Loaded m2"
      "TOOL_SCHEMAS m2 = OfType ss2" "TOOL_MAP m2 = OfType tm2"
    and "n \<in> dom tm1" "n \<in> dom tm2"
    and later: "\<forall>e \<in> set es2. \<not> declares e n"
  shows "(\<exists>A B C. fst (load_tools_from_directory (es0 @ e1 # es1 @ e2 # es2))
                    = A @ ss1 @ B @ ss2 @ C)
       \<and> snd (load_tools_from_directory (es0 @ e1 # es1 @ e2 # es2)) n = tm2 n"
proof -
  obtain S0 F0 where 0: "load_loop ([], Map.empty) es0 = (S0, F0)"
    by (cases "load_loop ([], Map.empty) es0")
  have 1: "load_entry (S0, F0) e1 = (S0 @ ss1, F0 ++ tm1)"
    by (rule load_entry_accepted[OF assms(1-5)])
  obtain S1 F1 where 2: "load_loop (S0 @ ss1, F0 ++ tm1) es1 = (S1, F1)"
    by (cases "load_loop (S0 @ ss1, F0 ++ tm1) es1")
  from load_loop_schemas_grow[of "S0 @ ss1" "F0 ++ tm1" es1] 2
  obtain B where B: "S1 = S0 @ ss1 @ B"
    by auto
  have 3: "load_entry (S1, F1) e2 = (S1 @ ss2, F1 ++ tm2)"
    by (rule load_entry_accepted[OF assms(6-10)])
  obtain S2 F2 where 4: "load_loop (S1 @ ss2, F1 ++ tm2) es2 = (S2, F2)"
    by (cases "load_loop (S1 @ ss2, F1 ++ tm2) es2")
  from load_loop_schemas_grow[of "S1 @ ss2" "F1 ++ tm2" es2] 4
  obtain C where C: "S2 = S1 @ ss2 @ C"
    by auto
  from load_loop_other_name[OF later, of "S1 @ ss2" "F1 ++ tm2"] 4
  have F2: "F2 n = (F1 ++ tm2) n"
    by simp
  have whole: "load_tools_from_directory (es0 @ e1 # es1 @ e2 # es2) = (S2, F2)"
    by (simp add: load_tools_from_directory_def load_loop_append 0 1 2 3 4 del: load_entry.simps)
  have "F2 n = tm2 n"
    using F2 assms(12) by (auto simp: map_add_def split: option.splits)
  moreover have "S2 = S0 @ ss1 @ B @ ss2 @ C"
    using B C by simp
  ultimately show ?thesis
    using whole by auto
qed

theorem duplicate_name_last_wins_witness:
  "(\<exists>A B C.
      fst (load_tools_from_directory
        ([] @ example_entry ''one''
                \<lparr>TOOL_SCHEMAS = OfType [example_schema ''dup'' ''first''],
                 TOOL_MAP = OfType [''dup'' \<mapsto> returns_none]\<rparr>
         # [] @ example_entry ''two''
                \<lparr>TOOL_SCHEMAS = OfType [example_schema ''dup'' ''second''],
                 TOOL_MAP = OfType [''dup'' \<mapsto> returns_bytes]\<rparr>
         # []))
      = A @ [example_schema ''dup'' ''first''] @ B @ [example_schema ''dup'' ''second''] @ C) \<and>
   snd (load_tools_from_directory
        ([] @ example_entry ''one''
                \<lparr>TOOL_SCHEMAS = OfType [example_schema ''dup'' ''first''],
                 TOOL_MAP = OfType [''dup'' \<mapsto> returns_none]\<rparr>
         # [] @ example_entry ''two''
                \<lparr>TOOL_SCHEMAS = OfType [example_schema ''dup'' ''second''],
                 TOOL_MAP = OfType [''dup'' \<mapsto> returns_bytes]\<rparr>
         # [])) ''dup''
     = [''dup'' \<mapsto> returns_bytes] ''dup''"
  using duplicate_name_last_wins
    [of "example_entry ''one''
           \<lparr>TOOL_SCHEMAS = OfType [example_schema ''dup'' ''first''],
            TOOL_MAP = OfType [''dup'' \<mapsto> returns_none]\<rparr>"
        "\<lparr>TOOL_SCHEMAS = OfType [example_schema ''dup'' ''first''],
            TOOL_MAP = OfType [''dup'' \<mapsto> returns_none]\<rparr>"
        "[example_schema ''dup'' ''first'']" "[''dup'' \<mapsto> returns_none]"
        "example_entry ''two''
           \<lparr>TOOL_SCHEMAS = OfType [example_schema ''dup'' ''second''],
            TOOL_MAP = OfType [''dup'' \<mapsto> returns_bytes]\<rparr>"
        "\<lparr>TOOL_SCHEMAS = OfType [example_schema ''dup'' ''second''],
            TOOL_MAP = OfType [''dup'' \<mapsto> returns_bytes]\<rparr>"
        "[example_schema ''dup'' ''second'']" "[''dup'' \<mapsto> returns_bytes]"
        "''dup''" "[]" "[]" "[]"]
  by (simp add: example_entry_def exclude_dirs_def)

text \<open>
  C9 as stated fails: the claim excludes a registry that keeps both schema entries of a
  duplicated name and binds the name to the later callable, and that is the registry
  built from two valid modules that both declare \<open>dup\<close>.
\<close>

theorem duplicate_name_keeps_both_schemas:
  "fst (load_tools_from_directory
     [example_entry ''one''
        \<lparr>TOOL_SCHEMAS = OfType [example_schema ''dup'' ''first''],
         TOOL_MAP = OfType [''dup'' \<mapsto> returns_none]\<rparr>,
      example_entry ''two''
        \<lparr>TOOL_SCHEMAS = OfType [example_schema ''dup'' ''second''],
         TOOL_MAP = OfType [''dup'' \<mapsto> returns_bytes]\<rparr>])
     = [example_schema ''dup'' ''first'', example_schema ''dup'' ''second''] \<and>
   snd (load_tools_from_directory
     [example_entry ''one''
        \<lparr>TOOL_SCHEMAS = OfType [example_schema ''dup'' ''first''],
         TOOL_MAP = OfType [''dup'' \<mapsto> returns_none]\<rparr>,
      example_entry ''two''
        \<lparr>TOOL_SCHEMAS = OfType [example_schema ''dup'' ''second''],
         TOOL_MAP = OfType [''dup'' \<mapsto> returns_bytes]\<rparr>]) ''dup''
     = Some returns_bytes \<and>
   returns_bytes \<noteq> returns_none"
  by (simp add: validate_tool_module_def load_tools_from_directory_def exclude_dirs_def
      example_entry_def returns_none_def returns_bytes_def fun_eq_iff)

subsection \<open>One pass of the loops\<close>

lemma called_names_append [simp]: "called_names (xs @ ys) = called_names xs @ called_names ys"
  by (induction xs rule: called_names.induct) auto

lemma reload_tools_fields [simp]:
  "messages (snd (reload_tools st)) = messages st"
  "events (snd (reload_tools st)) = events st"
  "tools_dir (snd (reload_tools st)) = tools_dir st"
  by (simp_all add: reload_tools_def split: prod.splits)

lemma append_message_fields [simp]:
  "messages (append_message m st) = messages st @ [m]"
  "events (append_message m st) = events st"
  "tools_dir (append_message m st) = tools_dir st"
  "loaded_tools_schemas (append_message m st) = loaded_tools_schemas st"
  "loaded_tool_functions (append_message m st) = loaded_tool_functions st"
  by (simp_all add: append_message_def)

lemma model_called_fields [simp]:
  "messages (model_called st) = messages st"
  "events (model_called st) = events st @ [ModelCalled (messages st) (loaded_tools_schemas st)]"
  "tools_dir (model_called st) = tools_dir st"
  "loaded_tools_schemas (model_called st) = loaded_tools_schemas st"
  "loaded_tool_functions (model_called st) = loaded_tool_functions st"
  by (simp_all add: model_called_def)

lemma invoke_simps:
  "invoke n None (JObj kw) st = (Inl err_not_callable, st\<lparr>events := events st @ [ToolCalled n None (JObj kw)]\<rparr>)"
  "invoke n (Some c) (JObj kw) st = (body c kw, if calls_reload c then snd (reload_tools (st\<lparr>events := events st @ [ToolCalled n (Some c) (JObj kw)]\<rparr>)) else st\<lparr>events := events st @ [ToolCalled n (Some c) (JObj kw)]\<rparr>)"
  "(\<And>kw. a \<noteq> JObj kw) \<Longrightarrow> invoke n f a st = (Inl (err_not_mapping f a), st\<lparr>events := events st @ [ToolCalled n f a]\<rparr>)"
  by (simp_all add: invoke_def Let_def split: jvalue.splits)

lemma invoke_events [simp]:
  "events (snd (invoke n f a st)) = events st @ [ToolCalled n f a]"
  by (simp add: invoke_def Let_def split: jvalue.splits option.splits)

lemma invoke_messages [simp]:
  "messages (snd (invoke n f a st)) = messages st"
  by (simp add: invoke_def Let_def split: jvalue.splits option.splits)

lemma invoke_globals:
  "(\<And>c. f = Some c \<Longrightarrow> \<not> calls_reload c) \<Longrightarrow>
   loaded_tools_schemas (snd (invoke n f a st)) = loaded_tools_schemas st \<and>
   loaded_tool_functions (snd (invoke n f a st)) = loaded_tool_functions st"
  by (auto simp add: invoke_def Let_def split: jvalue.splits option.splits)

lemma speak_text_branch_dict:
  "speak_text_branch f (JObj kw) st =
     (let voice_text = dict_get kw ''text'' (JStr '''');
          detailed_text0 = dict_get kw ''detailed_text'' (JStr '''');
          detailed_text = (if py_bool detailed_text0 then detailed_text0 else voice_text);
          st' = snd (invoke ''speak_text'' f (JObj kw) st)
      in case fst (invoke ''speak_text'' f (JObj kw) st) of
           Inl e \<Rightarrow> (Return (text_fallback detailed_text), st')
         | Inr audio_content \<Rightarrow>
             (case len_if_true audio_content of
                Inl e \<Rightarrow> (Return (text_fallback detailed_text), st')
              | Inr n \<Rightarrow> (Return (audio_response voice_text detailed_text audio_content), st')))"
  by (cases "invoke ''speak_text'' f (JObj kw) st")
     (simp add: speak_text_branch_def Let_def py_or_def split: sum.splits)

lemma speak_text_branch_not_dict:
  "(\<And>kw. a \<noteq> JObj kw) \<Longrightarrow> speak_text_branch f a st = (Raise (err_no_get a), st)"
  by (cases a) (simp_all add: speak_text_branch_def, blast)

lemma speak_text_branch_not_Next: "fst (speak_text_branch f a st) \<noteq> Next"
proof (cases "\<exists>kw. a = JObj kw")
  case True
  then obtain kw where "a = JObj kw" by blast
  then show ?thesis
    by (simp add: speak_text_branch_dict Let_def split: sum.splits)
next
  case False
  then show ?thesis by (simp add: speak_text_branch_not_dict)
qed

lemma speak_text_branch_messages: "messages (snd (speak_text_branch f a st)) = messages st"
proof (cases "\<exists>kw. a = JObj kw")
  case True
  then obtain kw where "a = JObj kw" by blast
  then show ?thesis
    by (simp add: speak_text_branch_dict Let_def split: sum.splits)
next
  case False
  then show ?thesis by (simp add: speak_text_branch_not_dict)
qed

lemma speak_text_branch_events:
  "events (snd (speak_text_branch f a st)) =
     events st @ (case a of JObj kw \<Rightarrow> [ToolCalled ''speak_text'' f a] | _ \<Rightarrow> [])"
proof (cases "\<exists>kw. a = JObj kw")
  case True
  then obtain kw where "a = JObj kw" by blast
  then show ?thesis
    by (simp add: speak_text_branch_dict Let_def split: sum.splits)
next
  case False
  then show ?thesis by (cases a) (simp_all add: speak_text_branch_not_dict)
qed

lemma other_tool_branch_Next: "fst (other_tool_branch tc f a st) = Next"
  by (cases "invoke (function_name tc) f a st")
     (simp add: other_tool_branch_def split: sum.splits)

lemma other_tool_branch_events:
  "events (snd (other_tool_branch tc f a st)) = events st @ [ToolCalled (function_name tc) f a]"
proof -
  obtain r st' where inv: "invoke (function_name tc) f a st = (r, st')"
    by (cases "invoke (function_name tc) f a st")
  then have "events st' = events st @ [ToolCalled (function_name tc) f a]"
    using invoke_events[of "function_name tc" f a st] by simp
  with inv show ?thesis
    by (simp add: other_tool_branch_def split: sum.splits)
qed

lemma other_tool_branch_raises:
  assumes "fst (invoke (function_name tc) f a st) = Inl e"
  shows "other_tool_branch tc f a st =
     (Next, append_message
        (tool_message (call_id tc) (function_name tc) (msg_tool_error @ str_of e))
        (snd (invoke (function_name tc) f a st)))"
  using assms by (cases "invoke (function_name tc) f a st") (simp add: other_tool_branch_def)

lemma for_body_speak:
  "function_name tc = ''speak_text'' \<Longrightarrow>
   for_body st tc =
     (case arguments tc of
        Inl e \<Rightarrow> (Raise e, st)
      | Inr a \<Rightarrow> speak_text_branch (loaded_tool_functions st ''speak_text'') a st)"
  by (simp add: for_body_def Let_def split: sum.splits)

lemma for_body_other:
  "function_name tc \<noteq> ''speak_text'' \<Longrightarrow>
   for_body st tc =
     (case arguments tc of
        Inl e \<Rightarrow> (Raise e, st)
      | Inr a \<Rightarrow> other_tool_branch tc (loaded_tool_functions st (function_name tc)) a st)"
  by (simp add: for_body_def Let_def split: sum.splits)

lemma for_body_speak_not_Next:
  "function_name tc = ''speak_text'' \<Longrightarrow> fst (for_body st tc) \<noteq> Next"
  by (simp add: for_body_speak speak_text_branch_not_Next split: sum.splits)

lemma for_body_speak_messages:
  "function_name tc = ''speak_text'' \<Longrightarrow> messages (snd (for_body st tc)) = messages st"
  by (simp add: for_body_speak speak_text_branch_messages split: sum.splits)

lemma for_body_Next:
  assumes "for_body st tc = (Next, st')"
  shows "function_name tc \<noteq> ''speak_text'' \<and>
         (\<exists>a. arguments tc = Inr a \<and>
              st' = snd (other_tool_branch tc (loaded_tool_functions st (function_name tc)) a st))"
proof -
  have ns: "function_name tc \<noteq> ''speak_text''"
    using assms for_body_speak_not_Next[of tc st] by auto
  with assms show ?thesis
    by (auto simp: for_body_other split: sum.splits)
qed

lemma for_body_Next_events:
  assumes "for_body st tc = (Next, st')"
  shows "\<exists>f a. events st' = events st @ [ToolCalled (function_name tc) f a]"
  using for_body_Next[OF assms] by (auto simp: other_tool_branch_events)

lemma for_body_messages_grow: "\<exists>ms. messages (snd (for_body st tc)) = messages st @ ms"
proof (cases "function_name tc = ''speak_text''")
  case True
  then show ?thesis by (simp add: for_body_speak_messages)
next
  case False
  show ?thesis
  proof (cases "arguments tc")
    case (Inl e)
    with False show ?thesis by (simp add: for_body_other)
  next
    case (Inr a)
    obtain r st' where inv:
      "invoke (function_name tc) (loaded_tool_functions st (function_name tc)) a st = (r, st')"
      by (cases "invoke (function_name tc) (loaded_tool_functions st (function_name tc)) a st")
    then have "messages st' = messages st"
      using invoke_messages[of "function_name tc" "loaded_tool_functions st (function_name tc)" a st]
      by simp
    with False Inr inv show ?thesis
      by (simp add: for_body_other other_tool_branch_def split: sum.splits)
  qed
qed

lemma for_body_events_grow: "\<exists>evs. events (snd (for_body st tc)) = events st @ evs"
proof (cases "arguments tc")
  case (Inl e)
  then show ?thesis by (simp add: for_body_def)
next
  case (Inr a)
  show ?thesis
  proof (cases "function_name tc = ''speak_text''")
    case True
    then show ?thesis
      by (simp add: for_body_speak Inr speak_text_branch_events)
  next
    case False
    then show ?thesis
      by (simp add: for_body_other Inr other_tool_branch_events)
  qed
qed

lemma for_tool_calls_append:
  "for_tool_calls st pre = (Next, st1) \<Longrightarrow> for_tool_calls st (pre @ rest) = for_tool_calls st1 rest"
  by (induction pre arbitrary: st) (auto split: prod.splits flow.splits)

lemma for_tool_calls_Next_events:
  "for_tool_calls st pre = (Next, st1) \<Longrightarrow>
   \<exists>evs. events st1 = events st @ evs \<and> called_names evs = map function_name pre"
proof (induction pre arbitrary: st)
  case Nil
  then show ?case by simp
next
  case (Cons tc pre)
  obtain r st' where step: "for_body st tc = (r, st')"
    by (cases "for_body st tc")
  with Cons.prems have r: "r = Next" and rest: "for_tool_calls st' pre = (Next, st1)"
    by (auto split: flow.splits)
  from for_body_Next_events[of st tc st'] step r
  obtain f a where ev: "events st' = events st @ [ToolCalled (function_name tc) f a]"
    by auto
  from Cons.IH[OF rest] obtain evs
    where "events st1 = events st' @ evs" "called_names evs = map function_name pre"
    by auto
  with ev show ?case by simp
qed

lemma for_tool_calls_messages_grow:
  "\<exists>ms. messages (snd (for_tool_calls st tcs)) = messages st @ ms"
proof (induction tcs arbitrary: st)
  case Nil
  then show ?case by simp
next
  case (Cons tc tcs)
  obtain r st' where step: "for_body st tc = (r, st')"
    by (cases "for_body st tc")
  from for_body_messages_grow[of st tc] step obtain ms where ms: "messages st' = messages st @ ms"
    by auto
  from Cons.IH[of st'] obtain ms' where "messages (snd (for_tool_calls st' tcs)) = messages st' @ ms'"
    by auto
  with step ms show ?case by (cases r) simp_all
qed

lemma for_tool_calls_events_grow:
  "\<exists>evs. events (snd (for_tool_calls st tcs)) = events st @ evs"
proof (induction tcs arbitrary: st)
  case Nil
  then show ?case by simp
next
  case (Cons tc tcs)
  obtain r st' where step: "for_body st tc = (r, st')"
    by (cases "for_body st tc")
  from for_body_events_grow[of st tc] step obtain evs where evs: "events st' = events st @ evs"
    by auto
  from Cons.IH[of st'] obtain evs' where "events (snd (for_tool_calls st' tcs)) = events st' @ evs'"
    by auto
  with step evs show ?case by (cases r) simp_all
qed

lemma while_loop_tool_calls:
  assumes "llm (messages st) (loaded_tools_schemas st) = Inr rm"
    and "tool_calls rm = Some tcs" and "tcs \<noteq> []"
  shows "while_loop llm (Suc fuel) st =
     (case for_tool_calls (append_message (Response rm) (model_called st)) tcs of
        (Raise e, st2) \<Rightarrow> Some (error_response (msg_llm_error @ str_of e), st2)
      | (Return r, st2) \<Rightarrow> Some (r, st2)
      | (Next, st2) \<Rightarrow> while_loop llm fuel st2)"
  using assms by (cases tcs) (simp_all add: Let_def del: for_tool_calls.simps)

lemma while_loop_reaches_call:
  assumes "llm (messages st) (loaded_tools_schemas st) = Inr rm"
    and "tool_calls rm = Some (pre @ tc # post)"
    and "for_tool_calls (append_message (Response rm) (model_called st)) pre = (Next, st1)"
  shows "while_loop llm (Suc fuel) st =
     (case for_tool_calls st1 (tc # post) of
        (Raise e, st2) \<Rightarrow> Some (error_response (msg_llm_error @ str_of e), st2)
      | (Return r, st2) \<Rightarrow> Some (r, st2)
      | (Next, st2) \<Rightarrow> while_loop llm fuel st2)"
proof -
  have "pre @ tc # post \<noteq> []" by simp
  from while_loop_tool_calls[where llm = llm and st = st and fuel = fuel, OF assms(1,2) this]
  show ?thesis
    by (simp only: for_tool_calls_append[OF assms(3)])
qed

lemma while_loop_events_grow:
  "while_loop llm fuel st = Some (r, st') \<Longrightarrow> \<exists>evs. events st' = events st @ evs"
proof (induction fuel arbitrary: st)
  case 0
  then show ?case by simp
next
  case (Suc fuel)
  show ?case
  proof (cases "llm (messages st) (loaded_tools_schemas st)")
    case (Inl e)
    with Suc.prems have "st' = model_called st"
      by (simp add: Let_def)
    then show ?thesis by simp
  next
    case (Inr rm)
    show ?thesis
    proof (cases "\<exists>tcs. tool_calls rm = Some tcs \<and> tcs \<noteq> []")
      case False
      with Inr Suc.prems have "st' = model_called st"
        by (auto simp add: Let_def split: option.splits list.splits)
      then show ?thesis by simp
    next
      case True
      then obtain tcs where tcs: "tool_calls rm = Some tcs" "tcs \<noteq> []"
        by blast
      let ?st0 = "append_message (Response rm) (model_called st)"
      obtain fl st2 where batch: "for_tool_calls ?st0 tcs = (fl, st2)"
        by (cases "for_tool_calls ?st0 tcs")
      from for_tool_calls_events_grow[of ?st0 tcs] batch
      obtain evs where evs: "events st2 = events (model_called st) @ evs"
        by auto
      have unfold: "while_loop llm (Suc fuel) st =
          (case (fl, st2) of
             (Raise e, s) \<Rightarrow> Some (error_response (msg_llm_error @ str_of e), s)
           | (Return r, s) \<Rightarrow> Some (r, s)
           | (Next, s) \<Rightarrow> while_loop llm fuel s)"
        using while_loop_tool_calls[where llm = llm and st = st and fuel = fuel, OF Inr tcs] batch
        by simp
      show ?thesis
      proof (cases fl)
        case Next
        with unfold Suc.prems have "while_loop llm fuel st2 = Some (r, st')"
          by simp
        from Suc.IH[OF this] evs show ?thesis by auto
      next
        case (Raise e)
        with unfold Suc.prems have "st' = st2" by simp
        with evs show ?thesis by simp
      next
        case (Return res)
        with unfold Suc.prems have "st' = st2" by simp
        with evs show ?thesis by simp
      qed
    qed
  qed
qed

lemma while_loop_first_event:
  assumes "while_loop llm fuel st = Some (r, st')"
  shows "\<exists>evs. events st' = events st @ ModelCalled (messages st) (loaded_tools_schemas st) # evs"
proof (cases fuel)
  case 0
  with assms show ?thesis by simp
next
  case (Suc n)
  show ?thesis
  proof (cases "llm (messages st) (loaded_tools_schemas st)")
    case (Inl e)
    with assms Suc have "st' = model_called st"
      by (simp add: Let_def)
    then show ?thesis by simp
  next
    case (Inr rm)
    show ?thesis
    proof (cases "\<exists>tcs. tool_calls rm = Some tcs \<and> tcs \<noteq> []")
      case False
      with Inr assms Suc have "st' = model_called st"
        by (auto simp add: Let_def split: option.splits list.splits)
      then show ?thesis by simp
    next
      case True
      then obtain tcs where tcs: "tool_calls rm = Some tcs" "tcs \<noteq> []"
        by blast
      let ?st0 = "append_message (Response rm) (model_called st)"
      obtain fl st2 where batch: "for_tool_calls ?st0 tcs = (fl, st2)"
        by (cases "for_tool_calls ?st0 tcs")
      from for_tool_calls_events_grow[of ?st0 tcs] batch
      obtain evs where evs: "events st2 = events (model_called st) @ evs"
        by auto
      have unfold: "while_loop llm (Suc n) st =
          (case (fl, st2) of
             (Raise e, s) \<Rightarrow> Some (error_response (msg_llm_error @ str_of e), s)
           | (Return r, s) \<Rightarrow> Some (r, s)
           | (Next, s) \<Rightarrow> while_loop llm n s)"
        using while_loop_tool_calls[where llm = llm and st = st and fuel = n, OF Inr tcs] batch
        by simp
      show ?thesis
      proof (cases fl)
        case Next
        with unfold assms Suc have "while_loop llm n st2 = Some (r, st')"
          by simp
        from while_loop_events_grow[OF this] evs show ?thesis by auto
      next
        case (Raise e)
        with unfold assms Suc have "st' = st2" by simp
        with evs show ?thesis by simp
      next
        case (Return res)
        with unfold assms Suc have "st' = st2" by simp
        with evs show ?thesis by simp
      qed
    qed
  qed
qed

lemmas run_defs =
  model_called_def append_message_def for_body_def speak_text_branch_def
  other_tool_branch_def invoke_def reload_tools_def load_tools_from_directory_def
  validate_tool_module_def exclude_dirs_def dict_get_def py_or_def audio_response_def
  text_fallback_def error_response_def tool_message_def err_not_callable_def
  err_not_mapping_def Let_def process_command_with_llm_and_tools_def seed_messages_def

subsection \<open>The seeded message list\<close>

lemma without_system_filter:
  "\<forall>msg \<in> set hist. map_of msg ''role'' \<noteq> None \<Longrightarrow>
   without_system hist
     = Inr (map Dict (filter (\<lambda>msg. map_of msg ''role'' \<noteq> Some ''system'') hist))"
  by (induction hist) auto

text \<open>
  C8, as the code has it. When the command is not empty and every prior message has a
  \<^verbatim>\<open>role\<close>, the message list is the system prompt, then every prior message
  whose role is not \<^verbatim>\<open>system\<close>, unchanged and in order, then the new user
  message; and a run that returns has passed exactly this list to the model in its first
  call. Only the role \<^verbatim>\<open>system\<close> is dropped (line 225): a prior message of any
  other role is replayed.
\<close>

theorem seed_drops_system_messages_only:
  assumes "\<forall>msg \<in> set conversation_history. map_of msg ''role'' \<noteq> None"
    and "command_text \<noteq> []"
    and "process_command_with_llm_and_tools llm system_prompt fuel command_text
           conversation_history st = Some out"
  shows "seed_messages system_prompt command_text conversation_history
           = Inr (Dict [(''role'', ''system''), (''content'', system_prompt)]
                  # map Dict (filter (\<lambda>msg. map_of msg ''role'' \<noteq> Some ''system'')
                               conversation_history)
                  @ [Dict [(''role'', ''user''), (''content'', command_text)]])
       \<and> (\<exists>r st' evs. out = Inr (r, st') \<and>
             events st' = events st
               @ ModelCalled
                   (Dict [(''role'', ''system''), (''content'', system_prompt)]
                    # map Dict (filter (\<lambda>msg. map_of msg ''role'' \<noteq> Some ''system'')
                                 conversation_history)
                    @ [Dict [(''role'', ''user''), (''content'', command_text)]])
                   (loaded_tools_schemas st)
               # evs)"
proof -
  let ?seeded = "Dict [(''role'', ''system''), (''content'', system_prompt)]
                  # map Dict (filter (\<lambda>msg. map_of msg ''role'' \<noteq> Some ''system'')
                               conversation_history)
                  @ [Dict [(''role'', ''user''), (''content'', command_text)]]"
  have seed: "seed_messages system_prompt command_text conversation_history = Inr ?seeded"
    by (simp add: seed_messages_def without_system_filter[OF assms(1)])
  with assms(2,3) obtain r st' where out: "out = Inr (r, st')"
    and run: "while_loop llm fuel (st\<lparr>messages := ?seeded\<rparr>) = Some (r, st')"
    by (auto simp add: process_command_with_llm_and_tools_def)
  from while_loop_first_event[OF run] obtain evs
    where "events st' = events st @ ModelCalled ?seeded (loaded_tools_schemas st) # evs"
    by auto
  with seed out show ?thesis by blast
qed

text \<open>
  The theorem at a history with a user, a system and a tool message.
\<close>

theorem seed_drops_system_messages_only_witness:
  "seed_messages ''system prompt'' ''hi''
       [[(''role'', ''user''), (''content'', ''a'')],
        [(''role'', ''system''), (''content'', ''old prompt'')],
        [(''role'', ''tool''), (''content'', ''42'')]]
     = Inr (Dict [(''role'', ''system''), (''content'', ''system prompt'')]
            # map Dict (filter (\<lambda>msg. map_of msg ''role'' \<noteq> Some ''system'')
                 [[(''role'', ''user''), (''content'', ''a'')],
                  [(''role'', ''system''), (''content'', ''old prompt'')],
                  [(''role'', ''tool''), (''content'', ''42'')]])
            @ [Dict [(''role'', ''user''), (''content'', ''hi'')]])
   \<and> (\<exists>r st' evs.
         the (process_command_with_llm_and_tools failing_provider ''system prompt'' 1 ''hi''
                [[(''role'', ''user''), (''content'', ''a'')],
                 [(''role'', ''system''), (''content'', ''old prompt'')],
                 [(''role'', ''tool''), (''content'', ''42'')]] example_state)
           = Inr (r, st') \<and>
         events st' = events example_state
           @ ModelCalled
               (Dict [(''role'', ''system''), (''content'', ''system prompt'')]
                # map Dict (filter (\<lambda>msg. map_of msg ''role'' \<noteq> Some ''system'')
                     [[(''role'', ''user''), (''content'', ''a'')],
                      [(''role'', ''system''), (''content'', ''old prompt'')],
                      [(''role'', ''tool''), (''content'', ''42'')]])
                @ [Dict [(''role'', ''user''), (''content'', ''hi'')]])
               (loaded_tools_schemas example_state)
           # evs)"
  by (rule seed_drops_system_messages_only
        [where llm = failing_provider and fuel = 1 and st = example_state])
     (simp_all add: run_defs failing_provider_def example_state_def)

text \<open>
  C8 as stated fails: a prior message with the role \<^verbatim>\<open>tool\<close> is in the list
  the first model call receives.
\<close>

theorem tool_role_message_is_replayed:
  "map_option (map_sum id (events \<circ> snd))
     (process_command_with_llm_and_tools failing_provider ''system prompt'' 1 ''hi''
        [[(''role'', ''tool''), (''content'', ''42'')]] example_state)
     = Some (Inr [ModelCalled
                    [Dict [(''role'', ''system''), (''content'', ''system prompt'')],
                     Dict [(''role'', ''tool''), (''content'', ''42'')],
                     Dict [(''role'', ''user''), (''content'', ''hi'')]]
                    [example_schema ''speak_text'' ''old'']])"
  by (simp add: run_defs failing_provider_def example_state_def example_schema_def)

subsection \<open>A failure of the model provider\<close>

text \<open>
  C6, as the code has it. When the call of the model provider raises, the loop returns
  in that same pass: the result is the dict with \<^verbatim>\<open>status\<close> \<^verbatim>\<open>error\<close>
  whose key \<^verbatim>\<open>response\<close> holds the text of line 320 followed by the text of
  the exception, and the run has made this one model call and nothing else.
\<close>

theorem provider_error_ends_run:
  assumes "llm (messages st) (loaded_tools_schemas st) = Inl e"
  shows "while_loop llm (Suc fuel) st =
           Some ([(''status'', Json (JStr ''error'')),
                  (''response'', Json (JStr (msg_llm_error @ str_of e)))],
                 model_called st)
       \<and> events (model_called st)
           = events st @ [ModelCalled (messages st) (loaded_tools_schemas st)]"
  using assms by (simp add: Let_def error_response_def)

theorem provider_error_ends_run_witness:
  "while_loop failing_provider (Suc 0) example_state =
           Some ([(''status'', Json (JStr ''error'')),
                  (''response'', Json (JStr (msg_llm_error @ str_of (Exception ''timeout''))))],
                 model_called example_state)
       \<and> events (model_called example_state)
           = events example_state
             @ [ModelCalled (messages example_state) (loaded_tools_schemas example_state)]"
  by (rule provider_error_ends_run) (simp add: failing_provider_def)

text \<open>
  C6 as stated fails on the name of the key: the dict returned has the error text under
  \<^verbatim>\<open>response\<close> and has no key \<^verbatim>\<open>message\<close>.
\<close>

theorem provider_error_key_is_response:
  "map_option (map_sum id fst)
     (process_command_with_llm_and_tools failing_provider ''system prompt'' 1 ''hi'' [] example_state)
     = Some (Inr [(''status'', Json (JStr ''error'')),
                  (''response'', Json (JStr (msg_llm_error @ ''timeout'')))])
   \<and> map_of [(''status'', Json (JStr ''error'')),
              (''response'', Json (JStr (msg_llm_error @ ''timeout'')))] ''message'' = None"
  by (simp add: run_defs failing_provider_def example_state_def)

subsection \<open>The terminal tool\<close>

text \<open>
  C3. In a turn of the model, let the calls before a call of \<^verbatim>\<open>speak_text\<close>
  have been processed without ending the run, let the arguments of that call be a dict
  with \<^verbatim>\<open>text\<close> \<open>v\<close>, and let the callable registered as
  \<^verbatim>\<open>speak_text\<close> return \<^verbatim>\<open>None\<close> or a bytes object on them. Then the run
  returns the audio response: \<^verbatim>\<open>voice_text\<close> is \<open>v\<close>,
  \<^verbatim>\<open>audio_content\<close> is what the callable returned, and
  \<^verbatim>\<open>detailed_text\<close> is the argument of that name, or \<open>v\<close> when that argument
  is absent or empty: the empty string, or another value Python takes for false
  (\<^verbatim>\<open>None\<close>, \<^verbatim>\<open>False\<close>, zero, the empty list and dict).
\<close>

theorem speak_text_success_shape:
  assumes "llm (messages st) (loaded_tools_schemas st) = Inr rm"
    and "tool_calls rm = Some (pre @ tc # post)"
    and "for_tool_calls (append_message (Response rm) (model_called st)) pre = (Next, st1)"
    and "function_name tc = ''speak_text''"
    and "arguments tc = Inr (JObj kwargs)"
    and "map_of kwargs ''text'' = Some v"
    and "map_of kwargs ''detailed_text'' = d"
    and "loaded_tool_functions st1 ''speak_text'' = Some f"
    and "body f kwargs = Inr audio"
    and "audio = PNone \<or> (\<exists>bs. audio = PBytes bs)"
  shows "\<exists>st'. while_loop llm (Suc fuel) st =
           Some ([(''status'', Json (JStr ''success'')),
                  (''response_type'', Json (JStr ''audio_response'')),
                  (''voice_text'', Json v),
                  (''detailed_text'',
                     Json (case d of
                             None \<Rightarrow> v
                           | Some x \<Rightarrow>
                               if x \<in> {JNull, JBool False, JInt 0, JStr [], JArr [], JObj []}
                                  \<or> (\<exists>w. x = JFloat w \<and> take_bit 63 w = 0)
                               then v else x)),
                  (''audio_content'', Obj audio)], st')"
proof -
  let ?detail = "case d of
                   None \<Rightarrow> v
                 | Some x \<Rightarrow>
                     if x \<in> {JNull, JBool False, JInt 0, JStr [], JArr [], JObj []}
                        \<or> (\<exists>w. x = JFloat w \<and> take_bit 63 w = 0)
                     then v else x"
  have voice: "dict_get kwargs ''text'' (JStr '''') = v"
    by (simp add: dict_get_def assms(6))
  have detail: "(if py_bool (dict_get kwargs ''detailed_text'' (JStr ''''))
                 then dict_get kwargs ''detailed_text'' (JStr '''') else v) = ?detail"
  proof (cases d)
    case None
    then show ?thesis by (simp add: dict_get_def assms(7))
  next
    case (Some x)
    have "py_bool x \<longleftrightarrow>
        \<not> (x \<in> {JNull, JBool False, JInt 0, JStr [], JArr [], JObj []}
           \<or> (\<exists>w. x = JFloat w \<and> take_bit 63 w = 0))"
      by (cases x) auto
    with Some show ?thesis
      by (cases "py_bool x") (auto simp add: dict_get_def assms(7))
  qed
  have len: "\<exists>n. len_if_true audio = Inr n"
    using assms(10) by auto
  have inv: "fst (invoke ''speak_text'' (Some f) (JObj kwargs) st1) = Inr audio"
    by (simp add: invoke_simps assms(9))
  have "\<exists>st'. for_body st1 tc =
      (Return (audio_response v
         (if py_bool (dict_get kwargs ''detailed_text'' (JStr ''''))
          then dict_get kwargs ''detailed_text'' (JStr '''') else v) audio), st')"
    using len inv
    by (auto simp add: for_body_speak[OF assms(4)] assms(5,8) speak_text_branch_dict Let_def
        voice)
  then have "\<exists>st'. for_body st1 tc = (Return (audio_response v ?detail audio), st')"
    by (simp only: detail)
  then obtain st' where "for_body st1 tc = (Return (audio_response v ?detail audio), st')"
    by blast
  then show ?thesis
    by (simp add: while_loop_reaches_call[where llm = llm and st = st, OF assms(1-3)]
        audio_response_def del: while_loop.simps)
qed

text \<open>
  The theorem at three calls with the text \<open>hi\<close>: one with a detailed text, one
  without, one with the empty string.
\<close>

theorem speak_text_success_shape_witness:
  "(\<exists>st'. while_loop
            (scripted 1 [speak_with [(''text'', JStr ''hi''), (''detailed_text'', JStr ''hello there'')]])
            (Suc 0) example_state =
           Some ([(''status'', Json (JStr ''success'')),
                  (''response_type'', Json (JStr ''audio_response'')),
                  (''voice_text'', Json (JStr ''hi'')),
                  (''detailed_text'', Json (JStr ''hello there'')),
                  (''audio_content'', Obj (PBytes ''RIFF''))], st'))
   \<and> (\<exists>st'. while_loop (scripted 1 [speak_with [(''text'', JStr ''hi'')]]) (Suc 0) example_state =
           Some ([(''status'', Json (JStr ''success'')),
                  (''response_type'', Json (JStr ''audio_response'')),
                  (''voice_text'', Json (JStr ''hi'')),
                  (''detailed_text'', Json (JStr ''hi'')),
                  (''audio_content'', Obj (PBytes ''RIFF''))], st'))
   \<and> (\<exists>st'. while_loop
            (scripted 1 [speak_with [(''text'', JStr ''hi''), (''detailed_text'', JStr '''')]])
            (Suc 0) example_state =
           Some ([(''status'', Json (JStr ''success'')),
                  (''response_type'', Json (JStr ''audio_response'')),
                  (''voice_text'', Json (JStr ''hi'')),
                  (''detailed_text'', Json (JStr ''hi'')),
                  (''audio_content'', Obj (PBytes ''RIFF''))], st'))"
proof -
  let ?full = "[(''text'', JStr ''hi''), (''detailed_text'', JStr ''hello there'')]"
  let ?brief = "[(''text'', JStr ''hi'')]"
  let ?blank = "[(''text'', JStr ''hi''), (''detailed_text'', JStr '''')]"
  have full: "\<exists>st'. while_loop (scripted 1 [speak_with ?full]) (Suc 0) example_state =
           Some ([(''status'', Json (JStr ''success'')),
                  (''response_type'', Json (JStr ''audio_response'')),
                  (''voice_text'', Json (JStr ''hi'')),
                  (''detailed_text'', Json (JStr ''hello there'')),
                  (''audio_content'', Obj (PBytes ''RIFF''))], st')"
    using speak_text_success_shape
      [where llm = "scripted 1 [speak_with ?full]" and st = example_state
         and rm = "\<lparr>content = None, tool_calls = Some [speak_with ?full]\<rparr>"
         and pre = "[]" and tc = "speak_with ?full" and post = "[]"
         and ?st1.0 = "append_message
                         (Response \<lparr>content = None, tool_calls = Some [speak_with ?full]\<rparr>)
                         (model_called example_state)"
         and kwargs = ?full and v = "JStr ''hi''" and d = "Some (JStr ''hello there'')"
         and f = returns_bytes and audio = "PBytes ''RIFF''" and fuel = 0]
    by (simp add: scripted_def example_state_def speak_with_def returns_bytes_def)
  have brief: "\<exists>st'. while_loop (scripted 1 [speak_with ?brief]) (Suc 0) example_state =
           Some ([(''status'', Json (JStr ''success'')),
                  (''response_type'', Json (JStr ''audio_response'')),
                  (''voice_text'', Json (JStr ''hi'')),
                  (''detailed_text'', Json (JStr ''hi'')),
                  (''audio_content'', Obj (PBytes ''RIFF''))], st')"
    using speak_text_success_shape
      [where llm = "scripted 1 [speak_with ?brief]" and st = example_state
         and rm = "\<lparr>content = None, tool_calls = Some [speak_with ?brief]\<rparr>"
         and pre = "[]" and tc = "speak_with ?brief" and post = "[]"
         and ?st1.0 = "append_message
                         (Response \<lparr>content = None, tool_calls = Some [speak_with ?brief]\<rparr>)
                         (model_called example_state)"
         and kwargs = ?brief and v = "JStr ''hi''" and d = None
         and f = returns_bytes and audio = "PBytes ''RIFF''" and fuel = 0]
    by (simp add: scripted_def example_state_def speak_with_def returns_bytes_def)
  have blank: "\<exists>st'. while_loop (scripted 1 [speak_with ?blank]) (Suc 0) example_state =
           Some ([(''status'', Json (JStr ''success'')),
                  (''response_type'', Json (JStr ''audio_response'')),
                  (''voice_text'', Json (JStr ''hi'')),
                  (''detailed_text'', Json (JStr ''hi'')),
                  (''audio_content'', Obj (PBytes ''RIFF''))], st')"
    using speak_text_success_shape
      [where llm = "scripted 1 [speak_with ?blank]" and st = example_state
         and rm = "\<lparr>content = None, tool_calls = Some [speak_with ?blank]\<rparr>"
         and pre = "[]" and tc = "speak_with ?blank" and post = "[]"
         and ?st1.0 = "append_message
                         (Response \<lparr>content = None, tool_calls = Some [speak_with ?blank]\<rparr>)
                         (model_called example_state)"
         and kwargs = ?blank and v = "JStr ''hi''" and d = "Some (JStr '''')"
         and f = returns_bytes and audio = "PBytes ''RIFF''" and fuel = 0]
    by (simp add: scripted_def example_state_def speak_with_def returns_bytes_def)
  from full brief blank show ?thesis
    by (intro conjI)
qed

text \<open>
  C4. In the same situation, when the callable registered as \<^verbatim>\<open>speak_text\<close>
  raises, the run still returns with \<^verbatim>\<open>status\<close> \<^verbatim>\<open>success\<close>: the text
  fallback whose \<^verbatim>\<open>text_content\<close> is the argument \<^verbatim>\<open>detailed_text\<close>, or
  the argument \<^verbatim>\<open>text\<close> when the detailed text is absent or empty.
\<close>

theorem speak_text_failure_falls_back:
  assumes "llm (messages st) (loaded_tools_schemas st) = Inr rm"
    and "tool_calls rm = Some (pre @ tc # post)"
    and "for_tool_calls (append_message (Response rm) (model_called st)) pre = (Next, st1)"
    and "function_name tc = ''speak_text''"
    and "arguments tc = Inr (JObj kwargs)"
    and "map_of kwargs ''text'' = Some v"
    and "map_of kwargs ''detailed_text'' = d"
    and "loaded_tool_functions st1 ''speak_text'' = Some f"
    and "body f kwargs = Inl e"
  shows "\<exists>st'. while_loop llm (Suc fuel) st =
           Some ([(''status'', Json (JStr ''success'')),
                  (''response_type'', Json (JStr ''text_fallback'')),
                  (''text_content'',
                     Json (case d of
                             None \<Rightarrow> v
                           | Some x \<Rightarrow>
                               if x \<in> {JNull, JBool False, JInt 0, JStr [], JArr [], JObj []}
                                  \<or> (\<exists>w. x = JFloat w \<and> take_bit 63 w = 0)
                               then v else x))], st')"
proof -
  let ?detail = "case d of
                   None \<Rightarrow> v
                 | Some x \<Rightarrow>
                     if x \<in> {JNull, JBool False, JInt 0, JStr [], JArr [], JObj []}
                        \<or> (\<exists>w. x = JFloat w \<and> take_bit 63 w = 0)
                     then v else x"
  have voice: "dict_get kwargs ''text'' (JStr '''') = v"
    by (simp add: dict_get_def assms(6))
  have detail: "(if py_bool (dict_get kwargs ''detailed_text'' (JStr ''''))
                 then dict_get kwargs ''detailed_text'' (JStr '''') else v) = ?detail"
  proof (cases d)
    case None
    then show ?thesis by (simp add: dict_get_def assms(7))
  next
    case (Some x)
    have "py_bool x \<longleftrightarrow>
        \<not> (x \<in> {JNull, JBool False, JInt 0, JStr [], JArr [], JObj []}
           \<or> (\<exists>w. x = JFloat w \<and> take_bit 63 w = 0))"
      by (cases x) auto
    with Some show ?thesis
      by (cases "py_bool x") (auto simp add: dict_get_def assms(7))
  qed
  have inv: "fst (invoke ''speak_text'' (Some f) (JObj kwargs) st1) = Inl e"
    by (simp add: invoke_simps assms(9))
  have "\<exists>st'. for_body st1 tc =
      (Return (text_fallback
         (if py_bool (dict_get kwargs ''detailed_text'' (JStr ''''))
          then dict_get kwargs ''detailed_text'' (JStr '''') else v)), st')"
    using inv
    by (auto simp add: for_body_speak[OF assms(4)] assms(5,8) speak_text_branch_dict Let_def
        voice)
  then have "\<exists>st'. for_body st1 tc = (Return (text_fallback ?detail), st')"
    by (simp only: detail)
  then obtain st' where "for_body st1 tc = (Return (text_fallback ?detail), st')"
    by blast
  then show ?thesis
    by (simp add: while_loop_reaches_call[where llm = llm and st = st, OF assms(1-3)]
        text_fallback_def del: while_loop.simps)
qed

text \<open>
  The theorem at a call with a detailed text and at one whose detailed text is empty.
\<close>

theorem speak_text_failure_falls_back_witness:
  "(\<exists>st'. while_loop
            (scripted 1 [speak_with [(''text'', JStr ''hi''), (''detailed_text'', JStr ''hello there'')]])
            (Suc 0) (example_state\<lparr>loaded_tool_functions := [''speak_text'' \<mapsto> raises_boom]\<rparr>) =
           Some ([(''status'', Json (JStr ''success'')),
                  (''response_type'', Json (JStr ''text_fallback'')),
                  (''text_content'', Json (JStr ''hello there''))], st'))
   \<and> (\<exists>st'. while_loop
            (scripted 1 [speak_with [(''text'', JStr ''hi''), (''detailed_text'', JStr '''')]])
            (Suc 0) (example_state\<lparr>loaded_tool_functions := [''speak_text'' \<mapsto> raises_boom]\<rparr>) =
           Some ([(''status'', Json (JStr ''success'')),
                  (''response_type'', Json (JStr ''text_fallback'')),
                  (''text_content'', Json (JStr ''hi''))], st'))"
proof -
  let ?full = "[(''text'', JStr ''hi''), (''detailed_text'', JStr ''hello there'')]"
  let ?blank = "[(''text'', JStr ''hi''), (''detailed_text'', JStr '''')]"
  let ?st = "example_state\<lparr>loaded_tool_functions := [''speak_text'' \<mapsto> raises_boom]\<rparr>"
  have full: "\<exists>st'. while_loop (scripted 1 [speak_with ?full]) (Suc 0) ?st =
           Some ([(''status'', Json (JStr ''success'')),
                  (''response_type'', Json (JStr ''text_fallback'')),
                  (''text_content'', Json (JStr ''hello there''))], st')"
    using speak_text_failure_falls_back
      [where llm = "scripted 1 [speak_with ?full]" and st = ?st
         and rm = "\<lparr>content = None, tool_calls = Some [speak_with ?full]\<rparr>"
         and pre = "[]" and tc = "speak_with ?full" and post = "[]"
         and ?st1.0 = "append_message
                         (Response \<lparr>content = None, tool_calls = Some [speak_with ?full]\<rparr>)
                         (model_called ?st)"
         and kwargs = ?full and v = "JStr ''hi''" and d = "Some (JStr ''hello there'')"
         and f = raises_boom and e = "Exception ''boom''" and fuel = 0]
    by (simp add: scripted_def example_state_def speak_with_def raises_boom_def)
  have blank: "\<exists>st'. while_loop (scripted 1 [speak_with ?blank]) (Suc 0) ?st =
           Some ([(''status'', Json (JStr ''success'')),
                  (''response_type'', Json (JStr ''text_fallback'')),
                  (''text_content'', Json (JStr ''hi''))], st')"
    using speak_text_failure_falls_back
      [where llm = "scripted 1 [speak_with ?blank]" and st = ?st
         and rm = "\<lparr>content = None, tool_calls = Some [speak_with ?blank]\<rparr>"
         and pre = "[]" and tc = "speak_with ?blank" and post = "[]"
         and ?st1.0 = "append_message
                         (Response \<lparr>content = None, tool_calls = Some [speak_with ?blank]\<rparr>)
                         (model_called ?st)"
         and kwargs = ?blank and v = "JStr ''hi''" and d = "Some (JStr '''')"
         and f = raises_boom and e = "Exception ''boom''" and fuel = 0]
    by (simp add: scripted_def example_state_def speak_with_def raises_boom_def)
  from full blank show ?thesis
    by (intro conjI)
qed

text \<open>
  C7. The calls of a turn are processed in the order of the list. When the calls before
  a call of \<^verbatim>\<open>speak_text\<close> have been processed without ending the run, the run
  returns at that call, whatever follows it in the list: the state it returns in is the
  one after this call alone, no message was appended after the ones of the earlier
  calls, and the tools called since the model call are the earlier ones in their order,
  then \<^verbatim>\<open>speak_text\<close> if its arguments are a dict.
\<close>

theorem terminal_call_ends_batch:
  assumes "llm (messages st) (loaded_tools_schemas st) = Inr rm"
    and "tool_calls rm = Some (pre @ tc # post)"
    and "for_tool_calls (append_message (Response rm) (model_called st)) pre = (Next, st1)"
    and "function_name tc = ''speak_text''"
  shows "(\<exists>r. while_loop llm (Suc fuel) st = Some (r, snd (for_body st1 tc)))
       \<and> messages (snd (for_body st1 tc)) = messages st1
       \<and> (\<exists>evs. events (snd (for_body st1 tc)) = events (model_called st) @ evs
              \<and> called_names evs
                  = map function_name pre
                    @ (case arguments tc of Inr (JObj kwargs) \<Rightarrow> [function_name tc] | _ \<Rightarrow> []))"
proof -
  obtain r st2 where body: "for_body st1 tc = (r, st2)"
    by (cases "for_body st1 tc")
  with for_body_speak_not_Next[OF assms(4), of st1] have r: "r \<noteq> Next"
    by simp
  have "for_tool_calls st1 (tc # post) = (r, st2)"
    using body r by (cases r) simp_all
  then have run: "\<exists>r'. while_loop llm (Suc fuel) st = Some (r', st2)"
    using r
    by (cases r) (simp_all add: while_loop_reaches_call[where llm = llm and st = st, OF assms(1-3)]
        del: while_loop.simps for_tool_calls.simps)
  from for_tool_calls_Next_events[OF assms(3)] obtain evs
    where evs: "events st1 = events (model_called st) @ evs"
      "called_names evs = map function_name pre"
    by auto
  have "events (snd (for_body st1 tc)) = events st1 @
      (case arguments tc of
         Inr (JObj kwargs) \<Rightarrow> [ToolCalled ''speak_text'' (loaded_tool_functions st1 ''speak_text'') (JObj kwargs)]
       | _ \<Rightarrow> [])"
    by (simp add: for_body_speak[OF assms(4)] speak_text_branch_events
        split: sum.splits jvalue.splits)
  then have "events st2 = events (model_called st) @ evs @
      (case arguments tc of
         Inr (JObj kwargs) \<Rightarrow> [ToolCalled ''speak_text'' (loaded_tool_functions st1 ''speak_text'') (JObj kwargs)]
       | _ \<Rightarrow> [])"
    by (simp add: evs body)
  moreover have "called_names (evs @
      (case arguments tc of
         Inr (JObj kwargs) \<Rightarrow> [ToolCalled ''speak_text'' (loaded_tool_functions st1 ''speak_text'') (JObj kwargs)]
       | _ \<Rightarrow> []))
     = map function_name pre
       @ (case arguments tc of Inr (JObj kwargs) \<Rightarrow> [function_name tc] | _ \<Rightarrow> [])"
    by (simp add: evs assms(4) split: sum.splits jvalue.splits)
  ultimately have "\<exists>evs. events st2 = events (model_called st) @ evs
       \<and> called_names evs
           = map function_name pre
             @ (case arguments tc of Inr (JObj kwargs) \<Rightarrow> [function_name tc] | _ \<Rightarrow> [])"
    by blast
  with run for_body_speak_messages[OF assms(4), of st1] body show ?thesis
    by simp
qed

text \<open>
  The theorem at a turn of three calls: an unknown tool, \<^verbatim>\<open>speak_text\<close>, and
  a third call that is never reached.
\<close>

theorem terminal_call_ends_batch_witness:
  "(\<exists>r. while_loop (scripted 1 [other_call ''unknown'', speak_call, other_call ''lookup'']) (Suc 0)
           example_state
         = Some (r, snd (for_body
                     (snd (for_body
                        (append_message
                           (Response \<lparr>content = None,
                                      tool_calls = Some [other_call ''unknown'', speak_call, other_call ''lookup'']\<rparr>)
                           (model_called example_state))
                        (other_call ''unknown'')))
                     speak_call)))
   \<and> messages (snd (for_body
                     (snd (for_body
                        (append_message
                           (Response \<lparr>content = None,
                                      tool_calls = Some [other_call ''unknown'', speak_call, other_call ''lookup'']\<rparr>)
                           (model_called example_state))
                        (other_call ''unknown'')))
                     speak_call))
       = messages (snd (for_body
                        (append_message
                           (Response \<lparr>content = None,
                                      tool_calls = Some [other_call ''unknown'', speak_call, other_call ''lookup'']\<rparr>)
                           (model_called example_state))
                        (other_call ''unknown'')))
   \<and> (\<exists>evs. events (snd (for_body
                     (snd (for_body
                        (append_message
                           (Response \<lparr>content = None,
                                      tool_calls = Some [other_call ''unknown'', speak_call, other_call ''lookup'']\<rparr>)
                           (model_called example_state))
                        (other_call ''unknown'')))
                     speak_call))
               = events (model_called example_state) @ evs
          \<and> called_names evs
              = map function_name [other_call ''unknown'']
                @ (case arguments speak_call of
                     Inr (JObj kwargs) \<Rightarrow> [function_name speak_call] | _ \<Rightarrow> []))"
  by (rule terminal_call_ends_batch
        [where rm = "\<lparr>content = None,
                       tool_calls = Some [other_call ''unknown'', speak_call, other_call ''lookup'']\<rparr>"
           and pre = "[other_call ''unknown'']" and post = "[other_call ''lookup'']"])
     (simp_all add: scripted_def example_state_def speak_call_def other_call_def
        for_body_other other_tool_branch_Next prod_eq_iff split: prod.splits)

subsection \<open>A failing tool\<close>

text \<open>
  A name that is not in the function map makes the call raise.
\<close>

lemma invoke_unknown:
  "\<exists>e. fst (invoke n None a st) = Inl e"
  by (simp add: invoke_def Let_def split: jvalue.splits)



subsection \<open>Reloading the registry during a run\<close>

lemma invoke_same_registry:
  assumes "\<forall>c \<in> ran (loaded_tool_functions st). \<not> calls_reload c"
  shows "same_registry st (snd (invoke n (loaded_tool_functions st n) a st))"
proof -
  have "\<not> calls_reload c" if "loaded_tool_functions st n = Some c" for c
    using assms that by (auto simp: ran_def)
  then show ?thesis
    using invoke_globals[of "loaded_tool_functions st n" n a st]
    by (simp add: same_registry_def)
qed

lemma for_body_isolated:
  assumes "\<forall>c \<in> ran (loaded_tool_functions st). \<not> calls_reload c"
  shows "same_registry st (snd (for_body st tc)) \<and>
         (\<exists>evs. events (snd (for_body st tc)) = events st @ evs \<and>
                list_all (sees_registry (loaded_tools_schemas st) (loaded_tool_functions st)) evs)"
proof (cases "arguments tc")
  case (Inl e)
  then show ?thesis
    by (simp add: for_body_def same_registry_def)
next
  case (Inr a)
  show ?thesis
  proof (cases "function_name tc = ''speak_text''")
    case True
    let ?f = "loaded_tool_functions st ''speak_text''"
    show ?thesis
    proof (cases "\<exists>kw. a = JObj kw")
      case dict: True
      then obtain kw where kw: "a = JObj kw" by blast
      have "snd (for_body st tc) = snd (invoke ''speak_text'' ?f (JObj kw) st)"
        by (simp add: for_body_speak[OF True] Inr kw speak_text_branch_dict Let_def
            split: sum.splits)
      with invoke_same_registry[OF assms, of "''speak_text''" "JObj kw"] show ?thesis
        by simp
    next
      case False
      then show ?thesis
        by (simp add: for_body_speak[OF True] Inr speak_text_branch_not_dict same_registry_def)
    qed
  next
    case False
    let ?f = "loaded_tool_functions st (function_name tc)"
    obtain r st' where inv: "invoke (function_name tc) ?f a st = (r, st')"
      by (cases "invoke (function_name tc) ?f a st")
    with invoke_same_registry[OF assms, of "function_name tc" a]
    have same: "same_registry st st'"
      by simp
    have ev: "events st' = events st @ [ToolCalled (function_name tc) ?f a]"
      using inv invoke_events[of "function_name tc" ?f a st] by simp
    from same ev inv show ?thesis
      by (simp add: for_body_other[OF False] Inr other_tool_branch_def same_registry_def
          split: sum.splits)
  qed
qed

lemma for_tool_calls_isolated:
  assumes "\<forall>c \<in> ran (loaded_tool_functions st). \<not> calls_reload c"
  shows "same_registry st (snd (for_tool_calls st tcs)) \<and>
         (\<exists>evs. events (snd (for_tool_calls st tcs)) = events st @ evs \<and>
                list_all (sees_registry (loaded_tools_schemas st) (loaded_tool_functions st)) evs)"
  using assms
proof (induction tcs arbitrary: st)
  case Nil
  then show ?case by (simp add: same_registry_def)
next
  case (Cons tc tcs)
  obtain r st' where step: "for_body st tc = (r, st')"
    by (cases "for_body st tc")
  from for_body_isolated[OF Cons.prems, of tc] step
  obtain evs where same: "same_registry st st'"
    and evs: "events st' = events st @ evs"
      "list_all (sees_registry (loaded_tools_schemas st) (loaded_tool_functions st)) evs"
    by auto
  show ?case
  proof (cases "r = Next")
    case True
    from same Cons.prems have nr: "\<forall>c \<in> ran (loaded_tool_functions st'). \<not> calls_reload c"
      by (simp add: same_registry_def)
    from Cons.IH[OF nr] obtain evs'
      where "same_registry st' (snd (for_tool_calls st' tcs))"
        "events (snd (for_tool_calls st' tcs)) = events st' @ evs'"
        "list_all (sees_registry (loaded_tools_schemas st') (loaded_tool_functions st')) evs'"
      by auto
    with same evs step True show ?thesis
      by (simp add: same_registry_def)
  next
    case False
    with step same evs show ?thesis
      by (cases r) simp_all
  qed
qed




end
